theory Spec2Isabelle
  imports Main "HOL-Library.Sublist"
begin

section \<open>Python strings\<close>

text \<open>
  A Python \<open>str\<close> is modelled as a \<open>string\<close>; a \<open>char\<close> stands for a code point
  below 256. The methods of \<open>str\<close> that \<open>image_dl.py\<close> calls are written out below
  with the behaviour CPython 3.11 has on such strings.
\<close>

definition startswith :: "string \<Rightarrow> string \<Rightarrow> bool" where
  "startswith s p = prefix p s"

definition endswith :: "string \<Rightarrow> string \<Rightarrow> bool" where
  "endswith s e = suffix e s"

definition code :: "char \<Rightarrow> nat" where
  "code c = of_char c"

definition isascii :: "char \<Rightarrow> bool" where
  "isascii c = (code c < 128)"

definition isalpha_ascii :: "char \<Rightarrow> bool" where
  "isalpha_ascii c = ((65 \<le> code c \<and> code c \<le> 90) \<or> (97 \<le> code c \<and> code c \<le> 122))"

text \<open>
  \<open>str.lower()\<close>: below 256 the cased upper letters are A-Z and U+00C0 to U+00DE
  without the multiplication sign U+00D7; each is 32 below its lower-case letter.
\<close>

definition lower_char :: "char \<Rightarrow> char" where
  "lower_char c =
     (if (65 \<le> code c \<and> code c \<le> 90) \<or> (192 \<le> code c \<and> code c \<le> 222 \<and> code c \<noteq> 215)
      then char_of (code c + 32) else c)"

definition lower :: "string \<Rightarrow> string" where
  "lower s = map lower_char s"

text \<open>\<open>s.split(sep)\<close> for a non-empty separator: left to right, without overlap.\<close>

fun split_aux :: "string \<Rightarrow> string \<Rightarrow> string \<Rightarrow> string list" where
  "split_aux sep cur [] = [rev cur]"
| "split_aux sep cur (c # cs) =
     (if sep \<noteq> [] \<and> prefix sep (c # cs)
      then rev cur # split_aux sep [] (drop (length sep - 1) cs)
      else split_aux sep (c # cur) cs)"

definition split :: "string \<Rightarrow> string \<Rightarrow> string list" where
  "split s sep = split_aux sep [] s"

text \<open>\<open>s.split(sep, 1)\<close> when \<open>sep\<close> is one character that occurs in \<open>s\<close>.\<close>

definition split1 :: "string \<Rightarrow> char \<Rightarrow> string \<times> string" where
  "split1 s c = (takeWhile (\<lambda>x. x \<noteq> c) s, drop 1 (dropWhile (\<lambda>x. x \<noteq> c) s))"

text \<open>\<open>s.strip(chars)\<close>, \<open>s.lstrip(chars)\<close> and \<open>s.replace(c, "")\<close>.\<close>

definition lstrip_chars :: "string \<Rightarrow> string \<Rightarrow> string" where
  "lstrip_chars s chars = dropWhile (\<lambda>c. c \<in> set chars) s"

definition strip_chars :: "string \<Rightarrow> string \<Rightarrow> string" where
  "strip_chars s chars = rev (lstrip_chars (rev (lstrip_chars s chars)) chars)"

definition remove_char :: "string \<Rightarrow> char \<Rightarrow> string" where
  "remove_char s c = filter (\<lambda>x. x \<noteq> c) s"

text \<open>
  \<open>s.strip()\<close> removes white space: below 256 these are U+0009 to U+000D,
  U+001C to U+0020, U+0085 and U+00A0.
\<close>

definition isspace :: "char \<Rightarrow> bool" where
  "isspace c = ((9 \<le> code c \<and> code c \<le> 13) \<or> (28 \<le> code c \<and> code c \<le> 32)
                \<or> code c = 133 \<or> code c = 160)"

definition strip :: "string \<Rightarrow> string" where
  "strip s = rev (dropWhile isspace (rev (dropWhile isspace s)))"

text \<open>\<open>str(n)\<close> for a natural number.\<close>

fun str_of_nat :: "nat \<Rightarrow> string" where
  "str_of_nat n =
     (if n < 10 then [char_of (48 + n)]
      else str_of_nat (n div 10) @ [char_of (48 + n mod 10)])"

declare str_of_nat.simps [simp del]

section \<open>Exceptions\<close>

text \<open>
  The exceptions that can arise in the program. \<open>ConnectTimeout\<close> is a subclass of both
  \<open>ConnectionError\<close> and \<open>Timeout\<close> in \<open>requests\<close>; \<open>KeyboardInterrupt\<close> is the only
  one here that is not a subclass of \<open>Exception\<close>.
\<close>

datatype exn =
    ValueError
  | HTTPError
  | ConnectionError
  | ConnectTimeout
  | ReadTimeout
  | RequestException
  | PermissionError
  | OSError
  | EOFError
  | KeyboardInterrupt

text \<open>What the file system, the network and the terminal can answer with.\<close>

datatype os_fault = Denied | Failed

datatype net_fault = Unreachable | ConnectTimedOut | ReadTimedOut | OtherRequestFault

datatype stdin = Line string | EndOfInput | Interrupt

fun os_exn :: "os_fault \<Rightarrow> exn" where
  "os_exn Denied = PermissionError"
| "os_exn Failed = OSError"

fun net_exn :: "net_fault \<Rightarrow> exn" where
  "net_exn Unreachable = ConnectionError"
| "net_exn ConnectTimedOut = ConnectTimeout"
| "net_exn ReadTimedOut = ReadTimeout"
| "net_exn OtherRequestFault = RequestException"

section \<open>The library functions the program calls\<close>

text \<open>
  What the interpreter takes from tables and from the machine it runs on is a field of
  the environment: the validation of a bracketed host (\<open>ipaddress\<close>), the NFKC check of
  a non-ASCII host (\<open>unicodedata\<close>), the UTF-8 decoding of percent-escaped bytes that
  are not ASCII, the MIME table of \<open>mimetypes\<close>, the clock, the network, the faults of
  the file system and the line on standard input.
\<close>

record datetime =
  year :: nat
  month :: nat
  day :: nat
  hour :: nat
  minute :: nat
  second :: nat

text \<open>
  A response: \<open>headers\<close> is the case-insensitive dictionary of \<open>requests\<close>, keyed here by
  the lower-case name; \<open>chunks\<close> is what \<open>iter_content\<close> yields, and \<open>stream_fault\<close> what
  it raises after the last chunk, if anything.
\<close>

record response =
  status_code :: nat
  headers :: "string \<rightharpoonup> string"
  chunks :: "string list"
  stream_fault :: "net_fault option"

record env =
  bracketed_host_ok :: "string \<Rightarrow> bool"
  nfkc_ok :: "string \<Rightarrow> bool"
  utf8_decode_replace :: "string \<Rightarrow> string"
  guess_extension :: "string \<Rightarrow> string option"
  now :: datetime
  requests_get :: "string \<Rightarrow> net_fault + response"
  mkdir_fault :: "string \<Rightarrow> os_fault option"
  open_fault :: "string \<Rightarrow> os_fault option"
  write_fault :: "string \<Rightarrow> nat \<Rightarrow> os_fault option"
  close_fault :: "string \<Rightarrow> os_fault option"
  input_line :: stdin

subsection \<open>\<open>urllib.parse\<close>\<close>

record parse_result =
  scheme :: string
  netloc :: string
  path :: string
  params :: string
  query :: string
  fragment :: string

definition scheme_chars :: string where
  "scheme_chars = ''abcdefghijklmnopqrstuvwxyzABCDEFGHIJKLMNOPQRSTUVWXYZ0123456789+-.''"

definition uses_params :: "string list" where
  "uses_params = ['''', ''ftp'', ''hdl'', ''prospero'', ''http'', ''imap'', ''https'', ''shttp'',
                  ''rtsp'', ''rtsps'', ''rtspu'', ''sip'', ''sips'', ''mms'', ''sftp'', ''tel'']"

text \<open>The scheme is split off when the text before the first colon is a scheme name.\<close>

definition split_scheme :: "string \<Rightarrow> string \<times> string" where
  "split_scheme url =
     (let pre = takeWhile (\<lambda>c. c \<noteq> CHR '':'') url in
      if CHR '':'' \<in> set url \<and> pre \<noteq> [] \<and> isascii (hd pre) \<and> isalpha_ascii (hd pre)
         \<and> list_all (\<lambda>c. c \<in> set scheme_chars) pre
      then (lower pre, drop (length pre + 1) url)
      else ('''', url))"

definition splitnetloc :: "string \<Rightarrow> string \<times> string" where
  "splitnetloc url =
     (let r = drop 2 url in
      (takeWhile (\<lambda>c. c \<notin> set ''/?#'') r, dropWhile (\<lambda>c. c \<notin> set ''/?#'') r))"

definition bracketed_host :: "string \<Rightarrow> string" where
  "bracketed_host nl =
     takeWhile (\<lambda>c. c \<noteq> CHR '']'') (drop 1 (dropWhile (\<lambda>c. c \<noteq> CHR ''['') nl))"

definition checknetloc :: "env \<Rightarrow> string \<Rightarrow> bool" where
  "checknetloc e nl = (if nl = [] \<or> list_all isascii nl then True else nfkc_ok e nl)"

text \<open>
  \<open>urlsplit\<close>: leading C0 control characters and spaces are stripped, tabs and line
  breaks removed, then scheme, netloc, fragment and query are split off in this order.
  It raises \<open>ValueError\<close> on unbalanced brackets in the netloc, on an invalid bracketed
  host and on a netloc that fails the NFKC check.
\<close>

definition urlsplit :: "env \<Rightarrow> string \<Rightarrow> exn + (string \<times> string \<times> string \<times> string \<times> string)" where
  "urlsplit e url0 =
     (let url1 = dropWhile (\<lambda>c. code c \<le> 32) url0;
          url2 = remove_char (remove_char (remove_char url1 (char_of (9::nat))) (char_of (13::nat)))
                   (char_of (10::nat));
          (sch, url3) = split_scheme url2;
          (nl, url4) = (if take 2 url3 = ''//'' then splitnetloc url3 else ('''', url3))
      in
      if take 2 url3 = ''//'' \<and>
         ((CHR ''['' \<in> set nl \<and> CHR '']'' \<notin> set nl) \<or> (CHR '']'' \<in> set nl \<and> CHR ''['' \<notin> set nl))
      then Inl ValueError
      else if take 2 url3 = ''//'' \<and> CHR ''['' \<in> set nl \<and> CHR '']'' \<in> set nl
              \<and> \<not> bracketed_host_ok e (bracketed_host nl)
      then Inl ValueError
      else
        let (url5, frag) = (if CHR ''#'' \<in> set url4 then split1 url4 (CHR ''#'') else (url4, ''''));
            (url6, q) = (if CHR ''?'' \<in> set url5 then split1 url5 (CHR ''?'') else (url5, ''''))
        in if checknetloc e nl then Inr (sch, nl, url6, q, frag) else Inl ValueError)"

text \<open>\<open>_splitparams\<close>: the parameters start at the first semicolon of the last segment.\<close>

definition splitparams :: "string \<Rightarrow> string \<times> string" where
  "splitparams url =
     (if CHR ''/'' \<in> set url
      then (let seg = rev (takeWhile (\<lambda>c. c \<noteq> CHR ''/'') (rev url));
                front = take (length url - length seg) url
            in if CHR '';'' \<in> set seg
               then (front @ takeWhile (\<lambda>c. c \<noteq> CHR '';'') seg,
                     drop 1 (dropWhile (\<lambda>c. c \<noteq> CHR '';'') seg))
               else (url, ''''))
      else split1 url (CHR '';''))"

definition urlparse :: "env \<Rightarrow> string \<Rightarrow> exn + parse_result" where
  "urlparse e url =
     (case urlsplit e url of
        Inl x \<Rightarrow> Inl x
      | Inr (sch, nl, u, q, frag) \<Rightarrow>
          (let (u', ps) = (if sch \<in> set uses_params \<and> CHR '';'' \<in> set u
                           then splitparams u else (u, ''''))
           in Inr \<lparr>scheme = sch, netloc = nl, path = u', params = ps, query = q,
                    fragment = frag\<rparr>))"

text \<open>
  \<open>unquote\<close>: a string without a percent sign is returned as it is. Otherwise every
  maximal run of ASCII characters has its escapes replaced by the bytes they name and
  is decoded as UTF-8, with a replacement character for what does not decode; the other
  characters stay.
\<close>

definition ishex :: "char \<Rightarrow> bool" where
  "ishex c = (c \<in> set ''0123456789ABCDEFabcdef'')"

definition hexval :: "char \<Rightarrow> nat" where
  "hexval c =
     (if 48 \<le> code c \<and> code c \<le> 57 then code c - 48
      else if 65 \<le> code c \<and> code c \<le> 70 then code c - 55
      else code c - 87)"

definition unquote_item :: "string \<Rightarrow> string" where
  "unquote_item item =
     (case item of
        a # b # rest \<Rightarrow>
          (if ishex a \<and> ishex b then char_of (16 * hexval a + hexval b) # rest
           else CHR ''%'' # item)
      | _ \<Rightarrow> CHR ''%'' # item)"

definition unquote_to_bytes :: "string \<Rightarrow> string" where
  "unquote_to_bytes s =
     (case split s ''%'' of [] \<Rightarrow> [] | b # bs \<Rightarrow> b @ concat (map unquote_item bs))"

definition decode_utf8 :: "env \<Rightarrow> string \<Rightarrow> string" where
  "decode_utf8 e bs = (if list_all isascii bs then bs else utf8_decode_replace e bs)"

function unquote_runs :: "env \<Rightarrow> string \<Rightarrow> string" where
  "unquote_runs e [] = []"
| "unquote_runs e (c # cs) =
     (if isascii c
      then decode_utf8 e (unquote_to_bytes (takeWhile isascii (c # cs)))
             @ unquote_runs e (dropWhile isascii (c # cs))
      else c # unquote_runs e cs)"
  by pat_completeness auto
termination
  by (relation "measure (\<lambda>(e, s). length s)")
     (auto simp: less_Suc_eq_le length_dropWhile_le)

definition unquote :: "env \<Rightarrow> string \<Rightarrow> string" where
  "unquote e s = (if CHR ''%'' \<notin> set s then s else unquote_runs e s)"

subsection \<open>\<open>datetime\<close>\<close>

text \<open>
  \<open>strftime("%Y%m%d_%H%M%S")\<close>: the year as it is (the C library does not pad it), the
  other fields on two digits.
\<close>

definition zero_pad :: "nat \<Rightarrow> nat \<Rightarrow> string" where
  "zero_pad w n = replicate (w - length (str_of_nat n)) (CHR ''0'') @ str_of_nat n"

definition strftime :: "datetime \<Rightarrow> string" where
  "strftime t =
     str_of_nat (year t) @ zero_pad 2 (month t) @ zero_pad 2 (day t) @ ''_''
       @ zero_pad 2 (hour t) @ zero_pad 2 (minute t) @ zero_pad 2 (second t)"

subsection \<open>\<open>os.path\<close> (POSIX)\<close>

text \<open>\<open>os.path.join(a, b)\<close> and \<open>os.path.splitext(p)\<close> of \<open>posixpath\<close>.\<close>

definition join :: "string \<Rightarrow> string \<Rightarrow> string" where
  "join a b =
     (if startswith b ''/'' then b
      else if a = [] \<or> endswith a ''/'' then a @ b
      else a @ ''/'' @ b)"

text \<open>
  The extension starts at the last dot of the last segment, unless only dots stand
  before it in that segment.
\<close>

definition splitext :: "string \<Rightarrow> string \<times> string" where
  "splitext p =
     (let seg = rev (takeWhile (\<lambda>c. c \<noteq> CHR ''/'') (rev p));
          ext = rev (takeWhile (\<lambda>c. c \<noteq> CHR ''.'') (rev seg));
          stem = take (length seg - length ext - 1) seg
      in if CHR ''.'' \<in> set seg \<and> \<not> list_all (\<lambda>c. c = CHR ''.'') stem
         then (take (length p - length ext - 1) p, CHR ''.'' # ext)
         else (p, ''''))"

section \<open>The program\<close>

definition image_extensions :: "string list" where
  "image_extensions = [''.jpg'', ''.jpeg'', ''.png'', ''.gif'', ''.bmp'', ''.webp'', ''.tiff'']"

text \<open>\<open>any(s.endswith(ext) for ext in image_extensions)\<close>\<close>

definition has_image_extension :: "string \<Rightarrow> bool" where
  "has_image_extension s = list_ex (\<lambda>ext. endswith s ext) image_extensions"

definition extract_filename_from_url :: "env \<Rightarrow> string \<Rightarrow> exn + string" where
  "extract_filename_from_url e url =
     (case urlparse e url of
        Inl x \<Rightarrow> Inl x
      | Inr parsed_url \<Rightarrow>
          (let p = unquote e (path parsed_url);
               filename = last (split p ''/'')
           in if p \<noteq> [] \<and> CHR ''/'' \<in> set p \<and> filename \<noteq> [] \<and> CHR ''.'' \<in> set filename
              then Inr filename
              else Inr (''image_'' @ strftime (now e) @ ''.jpg'')))"

definition is_valid_image_url :: "env \<Rightarrow> string \<Rightarrow> exn + bool" where
  "is_valid_image_url e url =
     (case urlparse e url of
        Inl x \<Rightarrow> Inl x
      | Inr parsed_url \<Rightarrow> Inr (has_image_extension (lower (path parsed_url))))"

subsection \<open>The state the program changes\<close>

text \<open>
  The directories and files that exist (a file with its content), the URLs of the HTTP
  GET requests issued so far, and the lines printed so far. Printed lines are given
  without the symbol that starts them in the source.
\<close>

record world =
  dirs :: "string set"
  files :: "string \<rightharpoonup> string"
  requested :: "string list"
  printed :: "string list"

definition print :: "world \<Rightarrow> string \<Rightarrow> world" where
  "print w s = w\<lparr>printed := printed w @ [s]\<rparr>"

definition exists :: "world \<Rightarrow> string \<Rightarrow> bool" where
  "exists w p = (p \<in> dirs w \<or> files w p \<noteq> None)"

text \<open>
  \<open>os.makedirs(name, exist_ok=True)\<close>: a directory that is there is left alone, a file
  of that name is an error, and the creation itself can fail.
\<close>

definition makedirs :: "env \<Rightarrow> string \<Rightarrow> world \<Rightarrow> exn + world" where
  "makedirs e name w =
     (if name \<in> dirs w then Inr w
      else if files w name \<noteq> None then Inl OSError
      else case mkdir_fault e name of
             Some f \<Rightarrow> Inl (os_exn f)
           | None \<Rightarrow> Inr (w\<lparr>dirs := insert name (dirs w)\<rparr>))"

definition create_directory :: "env \<Rightarrow> string \<Rightarrow> world \<Rightarrow> string option \<times> world" where
  "create_directory e directory_name w =
     (case makedirs e directory_name w of
        Inr w' \<Rightarrow> (Some directory_name, print w' (''Directory '' @ directory_name @ '' is ready''))
      | Inl x \<Rightarrow>
          (if x = PermissionError
           then (None, print w ''Permission denied: Cannot create directory'')
           else (None, print w ''Error creating directory'')))"

subsection \<open>Filename resolution\<close>

text \<open>\<open>sub in s\<close> and \<open>headers.get(name, '')\<close>.\<close>

fun contains :: "string \<Rightarrow> string \<Rightarrow> bool" where
  "contains [] sub = (sub = [])"
| "contains (c # cs) sub = (if prefix sub (c # cs) then True else contains cs sub)"

definition header_get :: "response \<Rightarrow> string \<Rightarrow> string" where
  "header_get r name = (case headers r name of None \<Rightarrow> [] | Some v \<Rightarrow> v)"

text \<open>The filename hint of the content-disposition header, else the filename of the URL.\<close>

definition quote_chars :: string where
  "quote_chars = [CHR 0x22, CHR 0x27]"

definition get_filename :: "env \<Rightarrow> string \<Rightarrow> response \<Rightarrow> exn + string" where
  "get_filename e url r =
     (let content_disposition = header_get r ''content-disposition'' in
      if contains content_disposition ''filename=''
      then Inr (strip_chars (last (split content_disposition ''filename='')) quote_chars)
      else extract_filename_from_url e url)"

text \<open>A filename without an image extension gets one from the content type, else \<open>.jpg\<close>.\<close>

definition ensure_extension :: "env \<Rightarrow> string \<Rightarrow> string \<Rightarrow> string" where
  "ensure_extension e content_type filename =
     (if has_image_extension (lower filename) then filename
      else case guess_extension e (hd (split content_type '';'')) of
             Some ext \<Rightarrow> (if ext \<noteq> [] then filename @ ext else filename @ ''.jpg'')
           | None \<Rightarrow> filename @ ''.jpg'')"

definition resolve_filename :: "env \<Rightarrow> string \<Rightarrow> response \<Rightarrow> exn + string" where
  "resolve_filename e url r =
     (case get_filename e url r of
        Inl x \<Rightarrow> Inl x
      | Inr filename \<Rightarrow> Inr (ensure_extension e (header_get r ''content-type'') filename))"

subsection \<open>Collision avoidance\<close>

text \<open>
  The loop of \<open>download_image\<close> over \<open>filename\<close>, \<open>filepath\<close> and \<open>counter\<close>. It has no
  bound in the source, so a run that never finds a free path is the value \<open>None\<close>.
\<close>

definition numbered :: "string \<Rightarrow> string \<Rightarrow> nat \<Rightarrow> string" where
  "numbered base_name extension counter = base_name @ ''_'' @ str_of_nat counter @ extension"

partial_function (option) collision_loop ::
  "(string \<Rightarrow> bool) \<Rightarrow> string \<Rightarrow> string \<Rightarrow> string \<Rightarrow> string \<Rightarrow> string \<Rightarrow> nat
     \<Rightarrow> (string \<times> string) option" where
  "collision_loop ex directory base_name extension filename filepath counter =
     (if ex filepath
      then collision_loop ex directory base_name extension
             (numbered base_name extension counter)
             (join directory (numbered base_name extension counter))
             (counter + 1)
      else Some (filename, filepath))"

definition avoid_collision :: "(string \<Rightarrow> bool) \<Rightarrow> string \<Rightarrow> string \<Rightarrow> (string \<times> string) option" where
  "avoid_collision ex directory filename =
     (let (base_name, extension) = splitext filename
      in collision_loop ex directory base_name extension filename (join directory filename) 1)"

declare collision_loop.simps [code]

subsection \<open>Writing the stream\<close>

text \<open>
  \<open>open(filepath, 'wb')\<close> creates or empties the file; every non-empty chunk is
  appended; what has been written stays when a write or the stream fails.
\<close>

definition content :: "world \<Rightarrow> string \<Rightarrow> string" where
  "content w p = (case files w p of None \<Rightarrow> [] | Some c \<Rightarrow> c)"

fun write_chunks :: "env \<Rightarrow> string \<Rightarrow> nat \<Rightarrow> string list \<Rightarrow> world \<Rightarrow> exn option \<times> world" where
  "write_chunks e filepath i [] w = (None, w)"
| "write_chunks e filepath i (chunk # rest) w =
     (if chunk = [] then write_chunks e filepath (i + 1) rest w
      else case write_fault e filepath i of
             Some f \<Rightarrow> (Some (os_exn f), w)
           | None \<Rightarrow>
               write_chunks e filepath (i + 1) rest
                 (w\<lparr>files := (files w)(filepath \<mapsto> content w filepath @ chunk)\<rparr>))"

definition save_stream :: "env \<Rightarrow> response \<Rightarrow> string \<Rightarrow> world \<Rightarrow> exn option \<times> world" where
  "save_stream e r filepath w =
     (case open_fault e filepath of
        Some f \<Rightarrow> (Some (os_exn f), w)
      | None \<Rightarrow>
          (let (x, w') = write_chunks e filepath 0 (chunks r) (w\<lparr>files := (files w)(filepath \<mapsto> [])\<rparr>)
           in case x of
                Some ex \<Rightarrow> (Some ex, w')
              | None \<Rightarrow>
                  (case stream_fault r of
                     Some f \<Rightarrow> (Some (net_exn f), w')
                   | None \<Rightarrow>
                       (case close_fault e filepath of
                          Some f \<Rightarrow> (Some (os_exn f), w')
                        | None \<Rightarrow> (None, w')))))"

subsection \<open>\<open>download_image\<close>\<close>

text \<open>
  The second half of the \<open>try\<close> block, from the path of the file to the lines
  printed after a complete write. \<open>None\<close> stands for a collision loop that does not end;
  otherwise the result is the exception raised, if any, and the state reached.
\<close>

definition save_image ::
  "env \<Rightarrow> response \<Rightarrow> string \<Rightarrow> string \<Rightarrow> world \<Rightarrow> (exn option \<times> world) option" where
  "save_image e r directory filename w =
     (case avoid_collision (exists w) directory filename of
        None \<Rightarrow> None
      | Some (filename', filepath) \<Rightarrow>
          (case save_stream e r filepath (print w (''Downloading: '' @ filename')) of
             (Some ex, w') \<Rightarrow> Some (Some ex, w')
           | (None, w') \<Rightarrow>
               Some (None,
                 print
                   (print w' (''Successfully saved: '' @ filename' @ '' (''
                      @ str_of_nat (length (content w' filepath)) @ '' bytes)''))
                   (''Location: '' @ filepath))))"

text \<open>The warning for a content type that does not start with \<open>image/\<close>.\<close>

definition check_content_type :: "string \<Rightarrow> world \<Rightarrow> world" where
  "check_content_type content_type w =
     (if startswith content_type ''image/'' then w
      else print (print w ''Warning: Server response doesn't appear to be an image'')
             (''Content-Type: '' @ content_type))"

text \<open>
  The body of the \<open>try\<close> block: the request is logged in \<open>requested\<close> when it is
  issued, and a status from 400 to 599 makes \<open>raise_for_status\<close> raise.
\<close>

definition attempt :: "env \<Rightarrow> string \<Rightarrow> string \<Rightarrow> world \<Rightarrow> (exn option \<times> world) option" where
  "attempt e url directory w0 =
     (let w1 = print w0 (''Connecting to: '' @ url);
          w2 = w1\<lparr>requested := requested w1 @ [url]\<rparr>
      in case requests_get e url of
           Inl f \<Rightarrow> Some (Some (net_exn f), w2)
         | Inr r \<Rightarrow>
             (if 400 \<le> status_code r \<and> status_code r < 600 then Some (Some HTTPError, w2)
              else
                (let w3 = check_content_type (header_get r ''content-type'') w2
                 in (case resolve_filename e url r of
                       Inl x \<Rightarrow> Some (Some x, w3)
                     | Inr filename \<Rightarrow> save_image e r directory filename w3))))"

text \<open>The \<open>except\<close> clauses, in their order: the first clause that matches prints.\<close>

fun handler_message :: "exn \<Rightarrow> string" where
  "handler_message HTTPError = ''HTTP Error''"
| "handler_message ConnectionError = ''Connection Error: Unable to connect to the server''"
| "handler_message ConnectTimeout = ''Connection Error: Unable to connect to the server''"
| "handler_message ReadTimeout = ''Timeout Error: Request took too long''"
| "handler_message RequestException = ''Request Error''"
| "handler_message PermissionError = ''Permission denied: Cannot write to file''"
| "handler_message x = ''Unexpected error''"

text \<open>
  The result of a call is \<open>Inr b\<close> when it returns \<open>b\<close> and \<open>Inl x\<close> when the exception
  \<open>x\<close> leaves it. The soft check of the URL stands before the \<open>try\<close> block, so what it
  raises is not handled. \<open>KeyboardInterrupt\<close> is no \<open>Exception\<close> and passes the
  handlers.
\<close>

definition download_image :: "env \<Rightarrow> string \<Rightarrow> string \<Rightarrow> world \<Rightarrow> ((exn + bool) \<times> world) option" where
  "download_image e url directory w =
     (if \<not> (startswith url ''http://'' \<or> startswith url ''https://'')
      then Some (Inr False, print w ''Invalid URL: Must start with http:// or https://'')
      else case is_valid_image_url e url of
             Inl x \<Rightarrow> Some (Inl x, w)
           | Inr v \<Rightarrow>
               (let w0 = (if v then w
                          else print (print w ''Warning: URL doesn't appear to point to an image file'')
                                 ''Proceeding anyway...'')
                in case attempt e url directory w0 of
                     None \<Rightarrow> None
                   | Some (None, w') \<Rightarrow> Some (Inr True, w')
                   | Some (Some x, w') \<Rightarrow>
                       (if x = KeyboardInterrupt then Some (Inl x, w')
                        else Some (Inr False, print w' (handler_message x)))))"

subsection \<open>\<open>main\<close>\<close>

definition banner :: "string list" where
  "banner = [replicate 50 (CHR ''=''), ''Image Fetcher - Ubuntu Principles Edition'',
             replicate 50 (CHR ''=''), ''Community: Connecting to the wider web'',
             ''Respect: Graceful error handling'', ''Sharing: Organized image storage'',
             ''Practicality: Real-world utility'', replicate 50 (CHR ''='')]"

text \<open>
  \<open>main\<close> returns nothing: the result is the exception that leaves it, if any, and the
  state it ends in.
\<close>

definition main :: "env \<Rightarrow> world \<Rightarrow> (exn option \<times> world) option" where
  "main e w0 =
     (let w1 = foldl print w0 banner;
          (directory, w2) = create_directory e ''Fetched_Images'' w1
      in case directory of
           None \<Rightarrow> Some (None, w2)
         | Some d \<Rightarrow>
             (if d = [] then Some (None, w2)
              else
                (let w3 = print w2 ''Please enter the image URL: ''
                 in (case input_line e of
                       Interrupt \<Rightarrow> Some (None, print w3 ''Operation cancelled by user. Goodbye!'')
                     | EndOfInput \<Rightarrow> Some (None, print w3 ''No input provided. Exiting.'')
                     | Line l \<Rightarrow>
                         (let url = strip l
                          in if url = [] then Some (None, print w3 ''No URL provided. Exiting.'')
                             else (case download_image e url d w3 of
                                     None \<Rightarrow> None
                                   | Some (Inl x, w4) \<Rightarrow>
                                       (if x = KeyboardInterrupt
                                        then Some (None,
                                               print w4 ''Operation cancelled by user. Goodbye!'')
                                        else if x = EOFError
                                        then Some (None, print w4 ''No input provided. Exiting.'')
                                        else Some (Some x, w4))
                                   | Some (Inr success, w4) \<Rightarrow>
                                       Some (None,
                                         print w4
                                           (if success then ''Download completed successfully!''
                                            else ''Download failed. Please check the URL and try again.''))))))))"

section \<open>A sample environment\<close>

text \<open>
  A concrete environment, state and responses on which the definitions can be run:
  a MIME table of three types, a clock, a network that knows five URLs and a file
  system without faults.
\<close>

definition png_response :: response where
  "png_response =
     \<lparr>status_code = 200, headers = [''content-type'' \<mapsto> ''image/png''],
      chunks = [''abc'', [], ''de''], stream_fault = None\<rparr>"

definition attachment_response :: response where
  "attachment_response =
     \<lparr>status_code = 200,
      headers = [''content-type'' \<mapsto> ''image/png'',
                 ''content-disposition'' \<mapsto> ''attachment; filename=\"pic.png\"''],
      chunks = [''abc''], stream_fault = None\<rparr>"

definition not_found_response :: response where
  "not_found_response =
     \<lparr>status_code = 404, headers = [''content-type'' \<mapsto> ''text/html''],
      chunks = [], stream_fault = None\<rparr>"

definition sample_get :: "string \<Rightarrow> net_fault + response" where
  "sample_get url =
     (if url = ''https://example.com/download'' then Inr png_response
      else if url = ''https://example.com/path/photo.jpeg?x=1'' then Inr png_response
      else if url = ''https://example.com/file'' then Inr attachment_response
      else if url = ''https://example.com/.png'' then Inr png_response
      else if url = ''https://example.com/missing.png'' then Inr not_found_response
      else Inl Unreachable)"

definition sample_env :: env where
  "sample_env =
     \<lparr>bracketed_host_ok = (\<lambda>h. h = ''::1''),
      nfkc_ok = (\<lambda>n. True),
      utf8_decode_replace = (\<lambda>b. ''?''),
      guess_extension = map_of [(''image/png'', ''.png''), (''image/jpeg'', ''.jpg''),
                                (''text/html'', ''.html'')],
      now = \<lparr>year = 2024, month = 1, day = 2, hour = 3, minute = 4, second = 5\<rparr>,
      requests_get = sample_get,
      mkdir_fault = (\<lambda>p. None),
      open_fault = (\<lambda>p. None),
      write_fault = (\<lambda>p i. None),
      close_fault = (\<lambda>p. None),
      input_line = Line ''  ''\<rparr>"

definition empty_world :: world where
  "empty_world = \<lparr>dirs = {}, files = Map.empty, requested = [], printed = []\<rparr>"

text \<open>
  An environment in which no directory can be created, a state with two photos and a
  state with a file named by an extension alone.
\<close>

definition denied_env :: env where
  "denied_env = sample_env\<lparr>mkdir_fault := (\<lambda>p. Some Denied)\<rparr>"

definition photo_world :: world where
  "photo_world =
     \<lparr>dirs = {''Fetched_Images''},
      files = [''Fetched_Images/photo.jpeg'' \<mapsto> ''one'', ''Fetched_Images/photo_1.jpeg'' \<mapsto> ''two''],
      requested = [], printed = []\<rparr>"

definition dot_world :: world where
  "dot_world =
     \<lparr>dirs = {''Fetched_Images''}, files = [''Fetched_Images/.png'' \<mapsto> ''one''],
      requested = [], printed = []\<rparr>"

section \<open>Properties\<close>

subsection \<open>Rejection of a URL without scheme prefix\<close>

text \<open>
  C1. For every URL that starts with neither \<open>http://\<close> nor \<open>https://\<close>,
  \<open>download_image\<close> returns \<open>False\<close>; it prints one line and changes nothing else, so
  no HTTP GET is issued and no file is touched.
\<close>

theorem download_image_rejects_without_scheme:
  assumes "\<not> startswith url ''http://''" and "\<not> startswith url ''https://''"
  shows "\<exists>w'. download_image e url directory w = Some (Inr False, w')
              \<and> requested w' = requested w \<and> files w' = files w \<and> dirs w' = dirs w"
  using assms by (simp add: download_image_def print_def)

theorem download_image_rejects_without_scheme_witness:
  "\<exists>w'. download_image sample_env ''ftp://example.com/a.png'' ''Fetched_Images'' empty_world
           = Some (Inr False, w')
        \<and> requested w' = requested empty_world \<and> files w' = files empty_world
        \<and> dirs w' = dirs empty_world"
proof -
  have a: "\<not> startswith ''ftp://example.com/a.png'' ''http://''"
    by (simp add: startswith_def)
  have b: "\<not> startswith ''ftp://example.com/a.png'' ''https://''"
    by (simp add: startswith_def)
  show ?thesis
    by (rule download_image_rejects_without_scheme [OF a b])
qed

subsection \<open>Filename resolution\<close>

lemma lower_append: "lower (a @ b) = lower a @ lower b"
  by (simp add: lower_def)

lemma has_image_extension_suffix:
  "x \<in> set image_extensions \<Longrightarrow> has_image_extension (s @ x)"
  by (auto simp: has_image_extension_def endswith_def list_ex_iff suffix_def intro!: bexI[of _ x])

lemma ensure_extension_keeps:
  "lower x \<in> set image_extensions \<Longrightarrow> ensure_extension e ct (stem @ x) = stem @ x"
  by (simp add: ensure_extension_def lower_append has_image_extension_suffix)

lemma ensure_extension_cases:
  "has_image_extension (lower (ensure_extension e ct f))
   \<or> (\<exists>ext. guess_extension e (hd (split ct '';'')) = Some ext \<and> ext \<noteq> []
            \<and> ensure_extension e ct f = f @ ext)
   \<or> ensure_extension e ct f = f @ ''.jpg''"
  by (auto simp: ensure_extension_def split: option.splits)

lemma extract_filename_from_url_total:
  "urlparse e url = Inr p \<Longrightarrow> \<exists>f. extract_filename_from_url e url = Inr f"
  by (simp add: extract_filename_from_url_def Let_def)

lemma get_filename_total:
  "urlparse e url = Inr p \<Longrightarrow> \<exists>f. get_filename e url r = Inr f"
  using extract_filename_from_url_total [of e url p]
  by (auto simp: get_filename_def Let_def)

lemma lower_jpg: "lower ''.jpg'' \<in> set image_extensions"
  by code_simp

lemma lower_png: "lower ''.png'' \<in> set image_extensions"
  by code_simp

lemma lower_jpeg: "lower ''.jpeg'' \<in> set image_extensions"
  by code_simp

lemma extract_download:
  "extract_filename_from_url e ''https://example.com/download''
     = Inr (''image_'' @ strftime (now e) @ ''.jpg'')"
  by code_simp

lemma extract_photo:
  "extract_filename_from_url e ''https://example.com/path/photo.jpeg?x=1'' = Inr ''photo.jpeg''"
  by code_simp

lemma png_response_no_hint:
  "\<not> contains (header_get png_response ''content-disposition'') ''filename=''"
  by code_simp

text \<open>
  C2, as stated: for \<open>https://example.com/download\<close>, no filename hint and content type
  \<open>image/png\<close> the resolved filename ends in \<open>.png\<close>. It does not: the last segment
  \<open>download\<close> has no dot, so the name is synthesized from the clock with \<open>.jpg\<close>
  at its end, and a name with an image extension is not extended.
\<close>

theorem resolve_download_url_not_png:
  "resolve_filename sample_env ''https://example.com/download'' png_response
     = Inr ''image_20240102_030405.jpg''
   \<and> \<not> endswith ''image_20240102_030405.jpg'' ''.png''"
  by code_simp

text \<open>
  C2, amended: for \<open>https://example.com/download\<close> and a response without filename
  hint, whatever its content type, the resolved filename is \<open>image_\<close>, the time stamp
  and \<open>.jpg\<close>.
\<close>

theorem resolve_download_url_synthesizes_jpg:
  assumes "\<not> contains (header_get r ''content-disposition'') ''filename=''"
  shows "resolve_filename e ''https://example.com/download'' r
           = Inr (''image_'' @ strftime (now e) @ ''.jpg'')"
proof -
  have g: "get_filename e ''https://example.com/download'' r
             = Inr (''image_'' @ strftime (now e) @ ''.jpg'')"
    using assms by (simp add: get_filename_def extract_download)
  have k: "ensure_extension e ct ((''image_'' @ strftime (now e)) @ ''.jpg'')
             = (''image_'' @ strftime (now e)) @ ''.jpg''" for ct
    by (rule ensure_extension_keeps) (rule lower_jpg)
  show ?thesis
    using k by (simp add: resolve_filename_def g)
qed

theorem resolve_download_url_synthesizes_jpg_witness:
  "\<not> contains (header_get png_response ''content-disposition'') ''filename=''
   \<and> header_get png_response ''content-type'' = ''image/png''
   \<and> resolve_filename sample_env ''https://example.com/download'' png_response
       = Inr ''image_20240102_030405.jpg''"
proof -
  have t: "''image_'' @ strftime (now sample_env) @ ''.jpg'' = ''image_20240102_030405.jpg''"
    by code_simp
  have c: "header_get png_response ''content-type'' = ''image/png''"
    by code_simp
  show ?thesis
    using png_response_no_hint c
      resolve_download_url_synthesizes_jpg [OF png_response_no_hint, of sample_env]
    by (simp only: t simp_thms)
qed

text \<open>
  C4. For every URL, a response whose content-disposition header is
  \<open>attachment; filename="pic.png"\<close> resolves to the filename \<open>pic.png\<close>, the quotes
  stripped.
\<close>

lemma hint_contains: "contains ''attachment; filename=\"pic.png\"'' ''filename=''"
  by code_simp

lemma hint_stripped:
  "strip_chars (last (split ''attachment; filename=\"pic.png\"'' ''filename='')) quote_chars
     = ''pic.png''"
  by code_simp

theorem resolve_content_disposition_pic_png:
  assumes "headers r ''content-disposition'' = Some ''attachment; filename=\"pic.png\"''"
  shows "resolve_filename e url r = Inr ''pic.png''"
proof -
  have g: "get_filename e url r = Inr ''pic.png''"
    using assms by (simp add: get_filename_def header_get_def hint_contains hint_stripped)
  have k: "ensure_extension e ct (''pic'' @ ''.png'') = ''pic'' @ ''.png''" for ct
    by (rule ensure_extension_keeps) (rule lower_png)
  show ?thesis
    using k by (simp add: resolve_filename_def g)
qed

theorem resolve_content_disposition_pic_png_witness:
  "headers attachment_response ''content-disposition'' = Some ''attachment; filename=\"pic.png\"''
   \<and> resolve_filename sample_env ''https://example.com/file'' attachment_response
       = Inr ''pic.png''"
proof -
  have h: "headers attachment_response ''content-disposition''
             = Some ''attachment; filename=\"pic.png\"''"
    by (simp add: attachment_response_def)
  show ?thesis
    using h resolve_content_disposition_pic_png [OF h, of sample_env "''https://example.com/file''"]
    by simp
qed

text \<open>
  C5. For \<open>https://example.com/path/photo.jpeg?x=1\<close> and a response without filename
  hint the resolved filename is \<open>photo.jpeg\<close>: the query is not part of the path, and
  the last segment of the decoded path has a dot.
\<close>

theorem resolve_photo_jpeg_url:
  assumes "\<not> contains (header_get r ''content-disposition'') ''filename=''"
  shows "resolve_filename e ''https://example.com/path/photo.jpeg?x=1'' r = Inr ''photo.jpeg''"
proof -
  have g: "get_filename e ''https://example.com/path/photo.jpeg?x=1'' r = Inr ''photo.jpeg''"
    using assms by (simp add: get_filename_def extract_photo)
  have k: "ensure_extension e ct (''photo'' @ ''.jpeg'') = ''photo'' @ ''.jpeg''" for ct
    by (rule ensure_extension_keeps) (rule lower_jpeg)
  show ?thesis
    using k by (simp add: resolve_filename_def g)
qed

theorem resolve_photo_jpeg_url_witness:
  "\<not> contains (header_get png_response ''content-disposition'') ''filename=''
   \<and> resolve_filename sample_env ''https://example.com/path/photo.jpeg?x=1'' png_response
       = Inr ''photo.jpeg''"
  using png_response_no_hint resolve_photo_jpeg_url [OF png_response_no_hint, of sample_env]
  by simp

text \<open>
  Inside \<open>download_image\<close> the resolution is reached only after the soft check has
  parsed the URL, so it yields a name there, and this name, before the collision loop,
  ends, letter case aside, with an image extension, or with the non-empty extension
  guessed from the content type, or with the appended \<open>.jpg\<close>.
\<close>

lemma resolve_filename_reached:
  assumes "is_valid_image_url e url = Inr v"
  shows "\<exists>f. resolve_filename e url r = Inr f
     \<and> (has_image_extension (lower f)
        \<or> (\<exists>stem ext. guess_extension e (hd (split (header_get r ''content-type'') '';'')) = Some ext
               \<and> ext \<noteq> [] \<and> f = stem @ ext)
        \<or> (\<exists>stem. f = stem @ ''.jpg''))"
proof -
  obtain p where "urlparse e url = Inr p"
    using assms by (auto simp: is_valid_image_url_def split: sum.splits)
  then obtain g where g: "get_filename e url r = Inr g"
    using get_filename_total by blast
  show ?thesis
    using ensure_extension_cases [of e "header_get r ''content-type''" g]
    by (auto simp: resolve_filename_def g)
qed

text \<open>
  The collision loop keeps an image extension that \<open>splitext\<close> has split off: the
  numbered name ends with it.
\<close>

lemma numbered_keeps_extension:
  "lower x \<in> set image_extensions \<Longrightarrow> has_image_extension (lower (numbered b x k))"
proof -
  assume a: "lower x \<in> set image_extensions"
  have "lower (numbered b x k) = lower (b @ ''_'' @ str_of_nat k) @ lower x"
    unfolding numbered_def lower_def by simp
  then show ?thesis
    using has_image_extension_suffix [OF a] by simp
qed

text \<open>
  C6. The claim is that the final filename always bears an extension. It does not
  when the resolved name is an extension alone and is taken: for
  \<open>https://example.com/.png\<close> the name \<open>.png\<close> passes the extension check, \<open>splitext\<close> takes
  a name of leading dots to have no extension, and with \<open>Fetched_Images/.png\<close> on disk
  the loop numbers it \<open>.png_1\<close>. This final name ends with no image extension, not with
  the guessed \<open>.png\<close> and not with \<open>.jpg\<close>, and the image is saved under it.
\<close>

theorem final_filename_loses_extension:
  "is_valid_image_url sample_env ''https://example.com/.png'' = Inr True
   \<and> resolve_filename sample_env ''https://example.com/.png'' png_response = Inr ''.png''
   \<and> splitext ''.png'' = (''.png'', [])
   \<and> avoid_collision (exists dot_world) ''Fetched_Images'' ''.png''
       = Some (''.png_1'', ''Fetched_Images/.png_1'')
   \<and> \<not> has_image_extension (lower ''.png_1'')
   \<and> guess_extension sample_env (hd (split (header_get png_response ''content-type'') '';''))
       = Some ''.png''
   \<and> \<not> endswith ''.png_1'' ''.png''
   \<and> \<not> endswith ''.png_1'' ''.jpg''
   \<and> map_option (\<lambda>(r, w). (r, files w ''Fetched_Images/.png_1'', files w ''Fetched_Images/.png''))
         (download_image sample_env ''https://example.com/.png'' ''Fetched_Images'' dot_world)
       = Some (Inr True, Some ''abcde'', Some ''one'')"
  by code_simp

text \<open>
  C10. The extension checks ignore letter case: a filename that ends in any case
  variant of an image extension, such as \<open>.JPG\<close> or \<open>.PNG\<close>, gets no extension
  appended, and a URL whose path ends so passes the soft check of the URL, so that no
  warning is printed for it.
\<close>

theorem image_extension_case_insensitive:
  assumes "lower x \<in> set image_extensions"
  shows "ensure_extension e ct (stem @ x) = stem @ x
    \<and> (\<forall>url p. urlparse e url = Inr p \<and> path p = stem @ x \<longrightarrow> is_valid_image_url e url = Inr True)"
  using assms
  by (auto simp: ensure_extension_keeps is_valid_image_url_def lower_append
      has_image_extension_suffix)

theorem image_extension_case_insensitive_witness:
  "lower ''.JPG'' \<in> set image_extensions
   \<and> ensure_extension sample_env ''image/png'' ''PHOTO.JPG'' = ''PHOTO.JPG''
   \<and> is_valid_image_url sample_env ''https://example.com/PHOTO.JPG'' = Inr True"
proof -
  have h: "lower ''.JPG'' \<in> set image_extensions"
    by code_simp
  have u: "urlparse sample_env ''https://example.com/PHOTO.JPG''
     = Inr \<lparr>scheme = ''https'', netloc = ''example.com'', path = ''/PHOTO.JPG'', params = [],
            query = [], fragment = []\<rparr>"
    by code_simp
  have a: "ensure_extension sample_env ''image/png'' (''PHOTO'' @ ''.JPG'') = ''PHOTO'' @ ''.JPG''"
    using image_extension_case_insensitive [OF h] by blast
  have b: "is_valid_image_url sample_env ''https://example.com/PHOTO.JPG'' = Inr True"
    using image_extension_case_insensitive [OF h, of sample_env _ "''/PHOTO''"] u by auto
  show ?thesis
    using h a b by simp
qed

subsection \<open>Collision avoidance\<close>

lemma collision_loop_least:
  assumes "\<not> ex (join d (numbered b x k))"
      and "\<forall>j. c \<le> j \<and> j < k \<longrightarrow> ex (join d (numbered b x j))"
      and "c \<le> k" and "ex fp"
  shows "collision_loop ex d b x fn fp c = Some (numbered b x k, join d (numbered b x k))"
  using assms
proof (induction "k - c" arbitrary: c fn fp)
  case 0
  then have "c = k" by simp
  with 0 show ?case
    by (subst collision_loop.simps, simp, subst collision_loop.simps, simp)
next
  case (Suc n)
  then have c: "c < k" by simp
  with Suc.prems have e: "ex (join d (numbered b x c))" by simp
  have "collision_loop ex d b x (numbered b x c) (join d (numbered b x c)) (c + 1)
          = Some (numbered b x k, join d (numbered b x k))"
    using Suc.hyps(2) Suc.prems c e by (intro Suc.hyps(1)) auto
  with Suc.prems(4) show ?case
    by (subst collision_loop.simps) simp
qed

lemma collision_loop_free:
  assumes "collision_loop ex d b x fn fp c = Some y"
  shows "\<not> ex (snd y)"
  by (rule collision_loop.raw_induct [where P = "\<lambda>ex d b x fn fp c y. \<not> ex (snd y)", OF _ assms])
     (fastforce split: if_splits)

lemma str_of_nat_nonempty: "str_of_nat n \<noteq> []"
  by (subst str_of_nat.simps) simp

lemma str_of_nat_last: "last (str_of_nat n) = char_of (48 + n mod 10)"
  by (subst str_of_nat.simps) simp

lemma str_of_nat_butlast: "butlast (str_of_nat n) = (if n < 10 then [] else str_of_nat (n div 10))"
  by (subst str_of_nat.simps) simp

lemma digit_inj: "char_of (48 + m mod 10 :: nat) = char_of (48 + n mod 10 :: nat) \<Longrightarrow> m mod 10 = n mod 10"
proof -
  assume "char_of (48 + m mod 10 :: nat) = char_of (48 + n mod 10 :: nat)"
  then have "(48 + m mod 10) mod 256 = (48 + n mod 10) mod 256" by simp
  moreover have "48 + m mod 10 < 256" "48 + n mod 10 < 256"
    by (simp_all add: less_imp_le_nat pos_mod_bound trans_less_add2 add.commute) 
  ultimately show ?thesis by simp
qed

lemma str_of_nat_inj: "str_of_nat m = str_of_nat n \<Longrightarrow> m = n"
proof (induction n arbitrary: m rule: less_induct)
  case (less n)
  have l: "m mod 10 = n mod 10"
    using less.prems str_of_nat_last [of m] str_of_nat_last [of n] digit_inj by simp
  have b: "butlast (str_of_nat m) = butlast (str_of_nat n)" using less.prems by simp
  show ?case
  proof (cases "n < 10")
    case True
    with b have "m < 10" using str_of_nat_nonempty [of "m div 10"]
      by (auto simp: str_of_nat_butlast split: if_splits)
    with True l show ?thesis by simp
  next
    case False
    with b have m: "\<not> m < 10" using str_of_nat_nonempty [of "n div 10"]
      by (auto simp: str_of_nat_butlast split: if_splits)
    with False b have "str_of_nat (m div 10) = str_of_nat (n div 10)"
      by (simp add: str_of_nat_butlast)
    moreover have "n div 10 < n" using False by simp
    ultimately have "m div 10 = n div 10" using less.IH by blast
    with l show ?thesis by (metis div_mult_mod_eq)
  qed
qed

lemma numbered_inj: "numbered b x j = numbered b x k \<Longrightarrow> j = k"
  by (simp add: numbered_def str_of_nat_inj)

lemma join_numbered:
  "\<exists>pre. \<forall>k. join d (numbered b x k) = pre @ numbered b x k"
proof (cases "startswith b ''/''")
  case True
  then have "\<forall>k. join d (numbered b x k) = [] @ numbered b x k"
    by (auto simp: join_def startswith_def numbered_def prefix_def)
  then show ?thesis by blast
next
  case False
  then have n: "\<not> startswith (numbered b x k) ''/''" for k
    by (cases b) (auto simp: startswith_def numbered_def)
  show ?thesis
  proof (cases "d = [] \<or> endswith d ''/''")
    case True
    with n have "\<forall>k. join d (numbered b x k) = d @ numbered b x k" by (simp add: join_def)
    then show ?thesis by blast
  next
    case False
    with n have "\<forall>k. join d (numbered b x k) = (d @ ''/'') @ numbered b x k" by (simp add: join_def)
    then show ?thesis by blast
  qed
qed

lemma join_numbered_inj: "join d (numbered b x j) = join d (numbered b x k) \<Longrightarrow> j = k"
  using join_numbered [of d b x] numbered_inj by (metis same_append_eq)

lemma free_counter_exists:
  assumes "finite {p. ex p}"
  shows "\<exists>k\<ge>c. \<not> ex (join d (numbered b x k))"
proof (rule ccontr)
  assume "\<not> ?thesis"
  then have "(\<lambda>k. join d (numbered b x k)) ` {c..} \<subseteq> {p. ex p}" by auto
  then have "finite ((\<lambda>k. join d (numbered b x k)) ` {c..})"
    using assms finite_subset by blast
  moreover have "inj_on (\<lambda>k. join d (numbered b x k)) {c..}"
    by (auto simp: inj_on_def dest: join_numbered_inj)
  ultimately have "finite {c..}" using finite_imageD by blast
  then show False by (simp add: infinite_Ici)
qed

lemma least_free_counter:
  assumes "finite {p. ex p}"
  shows "\<exists>k\<ge>c. \<not> ex (join d (numbered b x k)) \<and> (\<forall>j. c \<le> j \<and> j < k \<longrightarrow> ex (join d (numbered b x j)))"
proof -
  let ?P = "\<lambda>k. c \<le> k \<and> \<not> ex (join d (numbered b x k))"
  have "\<exists>k. ?P k" using free_counter_exists [OF assms, of c d b x] by blast
  then obtain k where "?P k" "\<forall>j<k. \<not> ?P j"
    using exists_least_iff [of ?P] by blast
  then show ?thesis by (intro exI [of _ k]) auto
qed

lemma avoid_collision_unchanged:
  "\<not> ex (join d f) \<Longrightarrow> avoid_collision ex d f = Some (f, join d f)"
  by (simp add: avoid_collision_def split: prod.splits) (subst collision_loop.simps, simp)

lemma avoid_collision_total:
  assumes "finite {p. ex p}"
  shows "\<exists>n p. avoid_collision ex d f = Some (n, p) \<and> \<not> ex p"
proof (cases "ex (join d f)")
  case False
  then show ?thesis using avoid_collision_unchanged by blast
next
  case True
  obtain b x where s: "splitext f = (b, x)" by fastforce
  obtain k where k: "1 \<le> k" "\<not> ex (join d (numbered b x k))"
      "\<forall>j. 1 \<le> j \<and> j < k \<longrightarrow> ex (join d (numbered b x j))"
    using least_free_counter [OF assms, of 1 d b x] by blast
  have "collision_loop ex d b x f (join d f) 1 = Some (numbered b x k, join d (numbered b x k))"
    using k True by (intro collision_loop_least) auto
  with k show ?thesis by (simp add: avoid_collision_def s)
qed

lemma finite_exists:
  "finite (dirs w) \<Longrightarrow> finite (dom (files w)) \<Longrightarrow> finite {p. exists w p}"
proof -
  assume "finite (dirs w)" and "finite (dom (files w))"
  moreover have "{p. exists w p} = dirs w \<union> dom (files w)"
    by (auto simp: exists_def)
  ultimately show ?thesis
    by simp
qed

lemma splitext_photo: "splitext ''photo.jpeg'' = (''photo'', ''.jpeg'')"
  by code_simp

text \<open>
  C3. In every state of the file system (finitely many files and directories) in which
  \<open>photo.jpeg\<close> exists in the target directory, the collision loop ends and resolves
  the filename to \<open>photo_k.jpeg\<close> for the first counter \<open>k\<close>, counted from 1, whose path
  is free: \<open>photo_1.jpeg\<close> if that is free, else \<open>photo_2.jpeg\<close>, and so on. The path
  it returns does not exist, and the path of every smaller counter does.
\<close>

theorem collision_loop_first_free_counter:
  assumes "finite (dirs w)" and "finite (dom (files w))"
      and "exists w (join d ''photo.jpeg'')"
  shows "\<exists>k\<ge>1. avoid_collision (exists w) d ''photo.jpeg''
               = Some (''photo_'' @ str_of_nat k @ ''.jpeg'',
                       join d (''photo_'' @ str_of_nat k @ ''.jpeg''))
           \<and> \<not> exists w (join d (''photo_'' @ str_of_nat k @ ''.jpeg''))
           \<and> (\<forall>j. 1 \<le> j \<and> j < k \<longrightarrow> exists w (join d (''photo_'' @ str_of_nat j @ ''.jpeg'')))"
proof -
  have fin: "finite {p. exists w p}"
    using assms(1,2) by (rule finite_exists)
  obtain k where k: "1 \<le> k" "\<not> exists w (join d (numbered ''photo'' ''.jpeg'' k))"
      "\<forall>j. 1 \<le> j \<and> j < k \<longrightarrow> exists w (join d (numbered ''photo'' ''.jpeg'' j))"
    using least_free_counter [OF fin, of 1 d "''photo''" "''.jpeg''"] by blast
  have "collision_loop (exists w) d ''photo'' ''.jpeg'' ''photo.jpeg'' (join d ''photo.jpeg'') 1
          = Some (numbered ''photo'' ''.jpeg'' k, join d (numbered ''photo'' ''.jpeg'' k))"
    using k assms(3) by (intro collision_loop_least) auto
  then show ?thesis
    using k by (intro exI [of _ k]) (simp add: avoid_collision_def splitext_photo numbered_def)
qed

theorem collision_loop_first_free_counter_witness:
  "finite (dirs photo_world) \<and> finite (dom (files photo_world))
   \<and> exists photo_world (join ''Fetched_Images'' ''photo.jpeg'')
   \<and> avoid_collision (exists photo_world) ''Fetched_Images'' ''photo.jpeg''
       = Some (''photo_2.jpeg'', ''Fetched_Images/photo_2.jpeg'')
   \<and> (\<exists>k\<ge>1. avoid_collision (exists photo_world) ''Fetched_Images'' ''photo.jpeg''
               = Some (''photo_'' @ str_of_nat k @ ''.jpeg'',
                       join ''Fetched_Images'' (''photo_'' @ str_of_nat k @ ''.jpeg''))
           \<and> \<not> exists photo_world (join ''Fetched_Images'' (''photo_'' @ str_of_nat k @ ''.jpeg''))
           \<and> (\<forall>j. 1 \<le> j \<and> j < k \<longrightarrow>
                  exists photo_world (join ''Fetched_Images'' (''photo_'' @ str_of_nat j @ ''.jpeg''))))"
proof -
  have a: "finite (dirs photo_world)"
    by (simp add: photo_world_def)
  have b: "finite (dom (files photo_world))"
    by (simp add: photo_world_def)
  have c: "exists photo_world (join ''Fetched_Images'' ''photo.jpeg'')"
    by code_simp
  have v: "avoid_collision (exists photo_world) ''Fetched_Images'' ''photo.jpeg''
             = Some (''photo_2.jpeg'', ''Fetched_Images/photo_2.jpeg'')"
    by code_simp
  show ?thesis
    using a b c v collision_loop_first_free_counter [OF a b c] by blast
qed

subsection \<open>The directory, the entry point and what leaves \<open>download_image\<close>\<close>

lemma print_fields [simp]:
  "requested (print w s) = requested w" "files (print w s) = files w" "dirs (print w s) = dirs w"
  by (simp_all add: print_def)

lemma foldl_print_fields [simp]:
  "requested (foldl print w ss) = requested w" "files (foldl print w ss) = files w"
  "dirs (foldl print w ss) = dirs w"
  by (induction ss arbitrary: w) simp_all

lemma create_directory_fields:
  "requested (snd (create_directory e name w)) = requested w"
  "files (snd (create_directory e name w)) = files w"
  by (auto simp: create_directory_def makedirs_def split: option.splits sum.splits if_splits)

lemma create_directory_dirs:
  "fst (create_directory e name w) = Some d \<Longrightarrow> name \<in> dirs (snd (create_directory e name w))"
  by (auto simp: create_directory_def makedirs_def split: option.splits sum.splits if_splits)

lemma create_directory_name:
  "create_directory e name w = (Some d, w2) \<Longrightarrow> d = name"
  by (auto simp: create_directory_def split: sum.splits if_splits)

lemma bad_url_check: "is_valid_image_url e ''http://['' = Inl ValueError"
  by code_simp

text \<open>
  C7. \<open>create_directory\<close> returns the given path when the directory is there already
  and when its creation succeeds; after a call that returned the path a second call
  on the same path returns it again; when the creation is denied or fails otherwise it
  returns \<open>None\<close>, not the path; and when it returns \<open>None\<close> in \<open>main\<close>, \<open>main\<close> returns
  with no HTTP GET issued and no file written.
\<close>

theorem create_directory_contract:
  "(name \<in> dirs w \<longrightarrow> fst (create_directory e name w) = Some name)
   \<and> (makedirs e name w = Inr w1 \<longrightarrow> fst (create_directory e name w) = Some name)
   \<and> (fst (create_directory e name w) = Some name
        \<longrightarrow> fst (create_directory e name (snd (create_directory e name w))) = Some name)
   \<and> (name \<notin> dirs w \<and> mkdir_fault e name = Some f \<longrightarrow> fst (create_directory e name w) = None)
   \<and> (makedirs e name w = Inl x \<longrightarrow> fst (create_directory e name w) = None)
   \<and> (fst (create_directory e ''Fetched_Images'' (foldl print w banner)) = None
        \<longrightarrow> (\<exists>w'. main e w = Some (None, w') \<and> requested w' = requested w \<and> files w' = files w))"
proof (intro conjI impI)
  assume "name \<in> dirs w"
  then show "fst (create_directory e name w) = Some name"
    by (simp add: create_directory_def makedirs_def)
next
  assume "makedirs e name w = Inr w1"
  then show "fst (create_directory e name w) = Some name"
    by (simp add: create_directory_def)
next
  assume "fst (create_directory e name w) = Some name"
  then have "name \<in> dirs (snd (create_directory e name w))"
    by (rule create_directory_dirs)
  then show "fst (create_directory e name (snd (create_directory e name w))) = Some name"
    by (simp add: create_directory_def makedirs_def)
next
  assume "name \<notin> dirs w \<and> mkdir_fault e name = Some f"
  then show "fst (create_directory e name w) = None"
    by (simp add: create_directory_def makedirs_def)
next
  assume "makedirs e name w = Inl x"
  then show "fst (create_directory e name w) = None"
    by (simp add: create_directory_def)
next
  assume a: "fst (create_directory e ''Fetched_Images'' (foldl print w banner)) = None"
  obtain w2 where c: "create_directory e ''Fetched_Images'' (foldl print w banner) = (None, w2)"
    using a by (cases "create_directory e ''Fetched_Images'' (foldl print w banner)") simp
  have "requested w2 = requested w" "files w2 = files w"
    using create_directory_fields [of e "''Fetched_Images''" "foldl print w banner"] c by simp_all
  then show "\<exists>w'. main e w = Some (None, w') \<and> requested w' = requested w \<and> files w' = files w"
    by (simp add: main_def c)
qed

theorem create_directory_contract_witness:
  "fst (create_directory sample_env ''Fetched_Images'' empty_world) = Some ''Fetched_Images''
   \<and> fst (create_directory sample_env ''Fetched_Images''
            (snd (create_directory sample_env ''Fetched_Images'' empty_world))) = Some ''Fetched_Images''
   \<and> fst (create_directory sample_env ''Fetched_Images'' photo_world) = Some ''Fetched_Images''
   \<and> fst (create_directory denied_env ''Fetched_Images'' empty_world) = None
   \<and> (\<exists>w'. main denied_env empty_world = Some (None, w')
          \<and> requested w' = requested empty_world \<and> files w' = files empty_world)"
proof -
  have m: "makedirs sample_env ''Fetched_Images'' empty_world
             = Inr (empty_world\<lparr>dirs := insert ''Fetched_Images'' (dirs empty_world)\<rparr>)"
    by (simp add: makedirs_def empty_world_def sample_env_def)
  have a: "fst (create_directory sample_env ''Fetched_Images'' empty_world) = Some ''Fetched_Images''"
    using create_directory_contract
      [where name = "''Fetched_Images''" and w = empty_world and e = sample_env] m
    by blast
  have b: "fst (create_directory sample_env ''Fetched_Images''
            (snd (create_directory sample_env ''Fetched_Images'' empty_world))) = Some ''Fetched_Images''"
    using create_directory_contract
      [where name = "''Fetched_Images''" and w = empty_world and e = sample_env] a
    by blast
  have p: "''Fetched_Images'' \<in> dirs photo_world"
    by (simp add: photo_world_def)
  have p': "fst (create_directory sample_env ''Fetched_Images'' photo_world) = Some ''Fetched_Images''"
    using create_directory_contract
      [where name = "''Fetched_Images''" and w = photo_world and e = sample_env] p
    by blast
  have f: "''Fetched_Images'' \<notin> dirs (foldl print empty_world banner)
           \<and> mkdir_fault denied_env ''Fetched_Images'' = Some Denied"
    by (simp add: empty_world_def denied_env_def)
  have f0: "''Fetched_Images'' \<notin> dirs empty_world
           \<and> mkdir_fault denied_env ''Fetched_Images'' = Some Denied"
    by (simp add: empty_world_def denied_env_def)
  have c: "fst (create_directory denied_env ''Fetched_Images'' empty_world) = None"
    using create_directory_contract
      [where name = "''Fetched_Images''" and w = empty_world and e = denied_env and f = Denied] f0
    by blast
  have c': "fst (create_directory denied_env ''Fetched_Images'' (foldl print empty_world banner)) = None"
    using create_directory_contract
      [where name = "''Fetched_Images''" and w = "foldl print empty_world banner"
         and e = denied_env and f = Denied] f
    by blast
  have d: "\<exists>w'. main denied_env empty_world = Some (None, w')
          \<and> requested w' = requested empty_world \<and> files w' = files empty_world"
    using create_directory_contract [where e = denied_env and w = empty_world] c' by blast
  show ?thesis
    using a b p' c d by blast
qed

text \<open>
  With finitely many files and directories and a URL that \<open>urlparse\<close> accepts,
  \<open>download_image\<close> returns a boolean: every exception of the \<open>try\<close> block is handled.
\<close>

lemma os_exn_caught: "os_exn f \<noteq> KeyboardInterrupt"
  by (cases f) simp_all

lemma net_exn_caught: "net_exn f \<noteq> KeyboardInterrupt"
  by (cases f) simp_all

lemma write_chunks_caught:
  "fst (write_chunks e fp i cs w) \<noteq> Some KeyboardInterrupt"
  by (induction cs arbitrary: i w) (auto simp: os_exn_caught split: option.splits)

lemma save_stream_caught:
  "fst (save_stream e r fp w) \<noteq> Some KeyboardInterrupt"
  using write_chunks_caught [of e fp 0 "chunks r" "w\<lparr>files := (files w)(fp \<mapsto> [])\<rparr>"]
  by (auto simp: save_stream_def os_exn_caught net_exn_caught split: option.splits prod.splits)

lemma resolve_filename_total:
  "urlparse e url = Inr p \<Longrightarrow> \<exists>f. resolve_filename e url r = Inr f"
  using get_filename_total [of e url p r] by (auto simp: resolve_filename_def)

lemma check_content_type_fields [simp]:
  "requested (check_content_type ct w) = requested w" "files (check_content_type ct w) = files w"
  "dirs (check_content_type ct w) = dirs w"
  by (simp_all add: check_content_type_def)

lemma save_image_total:
  assumes "finite (dirs w)" and "finite (dom (files w))"
  shows "\<exists>x w'. save_image e r d f w = Some (x, w') \<and> x \<noteq> Some KeyboardInterrupt"
proof -
  have fin: "finite {p. exists w p}"
    using assms by (rule finite_exists)
  obtain n fp where a: "avoid_collision (exists w) d f = Some (n, fp)"
    using avoid_collision_total [OF fin] by blast
  obtain x w5 where s: "save_stream e r fp (print w (''Downloading: '' @ n)) = (x, w5)"
    by fastforce
  have "x \<noteq> Some KeyboardInterrupt"
    using save_stream_caught [of e r fp "print w (''Downloading: '' @ n)"] s by simp
  with a s show ?thesis
    by (cases x) (simp_all add: save_image_def)
qed

lemma attempt_total:
  assumes "finite (dirs w)" and "finite (dom (files w))" and "urlparse e url = Inr p"
  shows "\<exists>x w'. attempt e url d w = Some (x, w') \<and> x \<noteq> Some KeyboardInterrupt"
proof (cases "requests_get e url")
  case (Inl f)
  then show ?thesis by (simp add: attempt_def Let_def net_exn_caught)
next
  case (Inr r)
  obtain f where f: "resolve_filename e url r = Inr f"
    using resolve_filename_total [OF assms(3)] by blast
  show ?thesis
  proof (cases "400 \<le> status_code r \<and> status_code r < 600")
    case True
    with Inr show ?thesis by (simp add: attempt_def Let_def)
  next
    case False
    have "\<exists>x w'. save_image e r d f (check_content_type (header_get r ''content-type'')
               ((print w (''Connecting to: '' @ url))
                  \<lparr>requested := requested (print w (''Connecting to: '' @ url)) @ [url]\<rparr>))
             = Some (x, w') \<and> x \<noteq> Some KeyboardInterrupt"
      using assms(1,2) by (intro save_image_total) simp_all
    with Inr f False show ?thesis
      by (auto simp: attempt_def Let_def)
  qed
qed

lemma download_image_returns_bool:
  assumes "finite (dirs w)" and "finite (dom (files w))" and "urlparse e url = Inr p"
  shows "\<exists>b w'. download_image e url directory w = Some (Inr b, w')"
proof (cases "startswith url ''http://'' \<or> startswith url ''https://''")
  case False
  then show ?thesis by (auto simp: download_image_def)
next
  case True
  have v: "is_valid_image_url e url = Inr (has_image_extension (lower (path p)))"
    using assms(3) by (simp add: is_valid_image_url_def)
  define w0 where "w0 = (if has_image_extension (lower (path p)) then w
       else print (print w ''Warning: URL doesn't appear to point to an image file'') ''Proceeding anyway...'')"
  have "finite (dirs w0)" "finite (dom (files w0))"
    using assms(1,2) by (simp_all add: w0_def)
  then obtain x w' where a: "attempt e url directory w0 = Some (x, w')" "x \<noteq> Some KeyboardInterrupt"
    using attempt_total [OF _ _ assms(3)] by blast
  have "download_image e url directory w =
          (case attempt e url directory w0 of
                     None \<Rightarrow> None
                   | Some (None, w') \<Rightarrow> Some (Inr True, w')
                   | Some (Some x, w') \<Rightarrow>
                       (if x = KeyboardInterrupt then Some (Inl x, w')
                        else Some (Inr False, print w' (handler_message x))))"
    using True v unfolding download_image_def w0_def by (simp add: Let_def)
  with a show ?thesis
    by (cases x) auto
qed

text \<open>Two runs on the sample environment: a saved image and a status 404.\<close>

lemma download_image_example_saved:
  "map_option (\<lambda>(r, w). (r, requested w, files w ''Fetched_Images/photo_2.jpeg'',
                          files w ''Fetched_Images/photo.jpeg''))
     (download_image sample_env ''https://example.com/path/photo.jpeg?x=1'' ''Fetched_Images''
        photo_world)
   = Some (Inr True, [''https://example.com/path/photo.jpeg?x=1''], Some ''abcde'', Some ''one'')"
  by code_simp

lemma download_image_example_not_found:
  "map_option (\<lambda>(r, w). (r, requested w, last (printed w)))
     (download_image sample_env ''https://example.com/missing.png'' ''Fetched_Images'' photo_world)
   = Some (Inr False, [''https://example.com/missing.png''], ''HTTP Error'')"
  by code_simp

lemma strip_bad_url: "strip ''http://['' = ''http://[''"
  by code_simp

text \<open>
  Read at the prompt, the URL \<open>http://[\<close> ends \<open>main\<close> with the exception
  \<open>ValueError\<close>: \<open>main\<close> handles \<open>KeyboardInterrupt\<close> and \<open>EOFError\<close> only.
\<close>

lemma main_raises_on_bad_netloc:
  assumes "input_line e = Line ''http://[''"
      and "fst (create_directory e ''Fetched_Images'' (foldl print w banner)) = Some d"
  shows "\<exists>w'. main e w = Some (Some ValueError, w')"
proof (cases "create_directory e ''Fetched_Images'' (foldl print w banner)")
  case (Pair directory w2)
  with assms(2) have "directory = Some ''Fetched_Images''"
    using create_directory_name [of e "''Fetched_Images''" "foldl print w banner" d w2] by simp
  with Pair assms(1) show ?thesis
    by (simp add: main_def Let_def strip_bad_url download_image_def startswith_def bad_url_check)
qed

text \<open>
  C8. The claim is that \<open>download_image\<close> returns a boolean for every input and lets no
  exception out. For the URL \<open>http://[\<close> it does not return: the soft check of the URL
  parses it before the \<open>try\<close> block is entered, \<open>urlparse\<close> raises \<open>ValueError\<close> on the
  unbalanced bracket, and the exception leaves \<open>download_image\<close> with nothing printed
  and nothing requested.
\<close>

theorem download_image_raises_on_bad_netloc:
  "download_image e ''http://['' directory w = Some (Inl ValueError, w)"
  by (simp add: download_image_def startswith_def bad_url_check)

text \<open>
  C9. When the line read from standard input is empty after stripping white space,
  \<open>main\<close> returns without an exception, with no HTTP GET issued and no file written;
  unless the directory could not be made, the last line it prints says that no URL
  was provided.
\<close>

theorem main_empty_input:
  assumes "input_line e = Line l" and "strip l = []"
  shows "\<exists>w'. main e w = Some (None, w') \<and> requested w' = requested w \<and> files w' = files w
          \<and> (fst (create_directory e ''Fetched_Images'' (foldl print w banner)) = None
              \<or> last (printed w') = ''No URL provided. Exiting.'')"
proof (cases "create_directory e ''Fetched_Images'' (foldl print w banner)")
  case (Pair directory w2)
  have f: "requested w2 = requested w" "files w2 = files w"
    using create_directory_fields [of e "''Fetched_Images''" "foldl print w banner"] Pair
    by simp_all
  show ?thesis
  proof (cases directory)
    case None
    with Pair f show ?thesis
      by (simp add: main_def)
  next
    case (Some d)
    with Pair have "d = ''Fetched_Images''"
      by (simp add: create_directory_name)
    with Some Pair f assms show ?thesis
      by (simp add: main_def Let_def print_def)
  qed
qed

theorem main_empty_input_witness:
  "input_line sample_env = Line ''  '' \<and> strip ''  '' = []
   \<and> (\<exists>w'. main sample_env empty_world = Some (None, w') \<and> requested w' = requested empty_world
         \<and> files w' = files empty_world
         \<and> (fst (create_directory sample_env ''Fetched_Images'' (foldl print empty_world banner))
               = None
              \<or> last (printed w') = ''No URL provided. Exiting.''))"
proof -
  have a: "input_line sample_env = Line ''  ''"
    by (simp add: sample_env_def)
  have b: "strip ''  '' = []"
    by code_simp
  show ?thesis
    using a b main_empty_input [OF a b] by simp
qed

end
